theory Spec2Isabelle
  imports Main "HOL-Library.Sublist"
begin

section \<open>The virtual piano of \<^verbatim>\<open>src/components/piano.tsx\<close>\<close>

text \<open>
  The component file holds three constant tables (\<^verbatim>\<open>NOTES\<close>, \<^verbatim>\<open>KEYBOARD_MAP\<close> and the
  sampler's \<^verbatim>\<open>urls\<close>), the loop that builds the table of playable keys, the event
  handlers of one key (\<^verbatim>\<open>PianoKey\<close>) and the lifecycle of the surface (\<^verbatim>\<open>Piano\<close>).
  Each is embedded below as the source writes it. JavaScript numbers that only ever hold
  small non-negative integers (the octave) are \<open>nat\<close>; wheel deltas and scroll offsets
  are \<open>int\<close>; strings are \<open>string\<close>; \<^verbatim>\<open>undefined\<close> and \<^verbatim>\<open>null\<close> are \<open>None\<close>.
\<close>

subsection \<open>JavaScript primitives used by the component\<close>

text \<open>\<^verbatim>\<open>`${n}`\<close> for a non-negative integer \<open>n\<close>: its decimal digits.\<close>

definition digit_char :: "nat \<Rightarrow> char" where
  "digit_char d = ''0123456789'' ! d"

fun Number_toString :: "nat \<Rightarrow> string" where
  "Number_toString n =
     (if n < 10 then [digit_char n]
      else Number_toString (n div 10) @ [digit_char (n mod 10)])"

declare Number_toString.simps [simp del]

text \<open>
  \<^verbatim>\<open>String.prototype.includes\<close>: the search string occurs at some position of the
  receiver, as a contiguous run of characters.
\<close>

fun String_includes :: "string \<Rightarrow> string \<Rightarrow> bool" where
  "String_includes [] t = (t = [])"
| "String_includes (c # cs) t = (prefix t (c # cs) \<or> String_includes cs t)"

text \<open>
  \<^verbatim>\<open>Object.entries\<close> lists the own properties of an object in the order of
  \<^verbatim>\<open>OrdinaryOwnPropertyKeys\<close>: first the keys that are array indices (canonical decimal
  strings of an integer below \<open>2^32 - 1\<close>), in ascending numeric order, then every other
  string key in the order of creation. An object literal is given here by its properties
  in the order they are written.
\<close>

definition digit_value :: "char \<Rightarrow> nat" where
  "digit_value c = of_char c - of_char CHR ''0''"

definition is_digit :: "char \<Rightarrow> bool" where
  "is_digit c = (c \<in> set ''0123456789'')"

definition parse_decimal :: "string \<Rightarrow> nat" where
  "parse_decimal s = foldl (\<lambda>acc c. 10 * acc + digit_value c) 0 s"

definition is_array_index :: "string \<Rightarrow> bool" where
  "is_array_index s =
     (s \<noteq> [] \<and> list_all is_digit s \<and> (s = ''0'' \<or> hd s \<noteq> CHR ''0'')
      \<and> parse_decimal s < 4294967295)"

definition Object_entries :: "(string \<times> 'v) list \<Rightarrow> (string \<times> 'v) list" where
  "Object_entries obj =
     sort_key (\<lambda>kv. parse_decimal (fst kv)) (filter (\<lambda>kv. is_array_index (fst kv)) obj)
     @ filter (\<lambda>kv. \<not> is_array_index (fst kv)) obj"

subsection \<open>The constant tables\<close>

definition NOTES :: "string list" where
  "NOTES = [''C'', ''C#'', ''D'', ''D#'', ''E'', ''F'', ''F#'', ''G'', ''G#'', ''A'', ''A#'', ''B'']"

definition START_OCTAVE :: nat where
  "START_OCTAVE = 3"

definition END_OCTAVE :: nat where
  "END_OCTAVE = 5"

definition KEYBOARD_MAP :: "(string \<times> string) list" where
  "KEYBOARD_MAP =
     [(''z'', ''C3''), (''s'', ''C#3''), (''x'', ''D3''), (''d'', ''D#3''),
      (''c'', ''E3''), (''v'', ''F3''), (''g'', ''F#3''), (''b'', ''G3''),
      (''h'', ''G#3''), (''n'', ''A3''), (''j'', ''A#3''), (''m'', ''B3''),
      (''q'', ''C4''), (''2'', ''C#4''), (''w'', ''D4''), (''3'', ''D#4''),
      (''e'', ''E4''), (''r'', ''F4''), (''5'', ''F#4''), (''t'', ''G4''),
      (''6'', ''G#4''), (''y'', ''A4''), (''7'', ''A#4''), (''u'', ''B4'')]"

text \<open>The configuration object handed to \<^verbatim>\<open>new Tone.Sampler\<close> in \<^verbatim>\<open>loadPiano\<close>.\<close>

record Sampler =
  urls :: "(string \<times> string) list"
  release :: nat
  baseUrl :: string

definition newSampler :: Sampler where
  "newSampler =
     \<lparr>urls =
        [(''A0'', ''A0.mp3''), (''C1'', ''C1.mp3''), (''D#1'', ''Ds1.mp3''),
         (''F#1'', ''Fs1.mp3''), (''A1'', ''A1.mp3''), (''C2'', ''C2.mp3''),
         (''D#2'', ''Ds2.mp3''), (''F#2'', ''Fs2.mp3''), (''A2'', ''A2.mp3''),
         (''C3'', ''C3.mp3''), (''D#3'', ''Ds3.mp3''), (''F#3'', ''Fs3.mp3''),
         (''A3'', ''A3.mp3''), (''C4'', ''C4.mp3''), (''D#4'', ''Ds4.mp3''),
         (''F#4'', ''Fs4.mp3''), (''A4'', ''A4.mp3''), (''C5'', ''C5.mp3''),
         (''D#5'', ''Ds5.mp3''), (''F#5'', ''Fs5.mp3''), (''A5'', ''A5.mp3''),
         (''C6'', ''C6.mp3''), (''D#6'', ''Ds6.mp3''), (''F#6'', ''Fs6.mp3''),
         (''A6'', ''A6.mp3''), (''C7'', ''C7.mp3''), (''D#7'', ''Ds7.mp3''),
         (''F#7'', ''Fs7.mp3''), (''A7'', ''A7.mp3''), (''C8'', ''C8.mp3'')],
      release = 1,
      baseUrl = ''https://tonejs.github.io/audio/salamander/''\<rparr>"

subsection \<open>The key table built by \<^verbatim>\<open>Piano\<close>\<close>

record Key =
  "note" :: string
  octave :: nat
  keyBinding :: "string option"
  isBlack :: bool

text \<open>The identifier \<^verbatim>\<open>`${note}${octave}`\<close> of a key.\<close>

definition noteId :: "string \<Rightarrow> nat \<Rightarrow> string" where
  "noteId n oct = n @ Number_toString oct"

text \<open>
  \<^verbatim>\<open>Object.entries(KEYBOARD_MAP).find(([_, value]) => value === `${note}${octave}`)?.[0]\<close>
\<close>

definition lookupBinding :: "string \<Rightarrow> nat \<Rightarrow> string option" where
  "lookupBinding n oct =
     map_option fst (find (\<lambda>kv. snd kv = noteId n oct) (Object_entries KEYBOARD_MAP))"

text \<open>The body of the inner loop: one \<^verbatim>\<open>allKeys.push\<close>.\<close>

definition pushKey :: "Key list \<Rightarrow> string \<Rightarrow> nat \<Rightarrow> Key list" where
  "pushKey acc n oct =
     acc @ [\<lparr>note = n, octave = oct, keyBinding = lookupBinding n oct,
             isBlack = String_includes n ''#''\<rparr>]"

text \<open>\<^verbatim>\<open>for (const note of NOTES)\<close> at a fixed octave.\<close>

fun notesLoop :: "string list \<Rightarrow> nat \<Rightarrow> Key list \<Rightarrow> Key list" where
  "notesLoop [] oct acc = acc"
| "notesLoop (n # ns) oct acc = notesLoop ns oct (pushKey acc n oct)"

text \<open>\<^verbatim>\<open>for (let octave = START_OCTAVE; octave <= END_OCTAVE; octave++)\<close>\<close>

function octaveLoop :: "nat \<Rightarrow> Key list \<Rightarrow> Key list" where
  "octaveLoop oct acc =
     (if oct \<le> END_OCTAVE then octaveLoop (oct + 1) (notesLoop NOTES oct acc) else acc)"
  by pat_completeness auto
termination
  by (relation "measure (\<lambda>(oct, acc). Suc END_OCTAVE - oct)") auto

declare octaveLoop.simps [simp del]

definition allKeys :: "Key list" where
  "allKeys = octaveLoop START_OCTAVE []"

subsection \<open>One playable key: \<^verbatim>\<open>PianoKey\<close>\<close>

text \<open>
  The props of a \<^verbatim>\<open>PianoKey\<close> are the fields of a table entry and the sampler
  reference (\<open>None\<close> is \<^verbatim>\<open>null\<close>: the engine is not ready).
\<close>

record PianoKeyProps = Key +
  sampler :: "Sampler option"

text \<open>What a handler can touch: the key's own \<^verbatim>\<open>isPressed\<close> state, the calls that
  have reached the sampler, and the \<^verbatim>\<open>preventDefault\<close> flag of the event being handled.
  React renders again after a handler has run, so the next handler reads the state the
  previous one wrote.\<close>

datatype engine_call = triggerAttack string | triggerRelease string

record KeyWorld =
  isPressed :: bool
  calls :: "engine_call list"
  defaultPrevented :: bool

record KeyboardEvent =
  key :: string
  repeat :: bool

definition playNote :: "PianoKeyProps \<Rightarrow> KeyWorld \<Rightarrow> KeyWorld" where
  "playNote p w =
     (case sampler p of
        None \<Rightarrow> w
      | Some s \<Rightarrow> w\<lparr>calls := calls w @ [triggerAttack (noteId (note p) (octave p))],
                     isPressed := True\<rparr>)"

definition stopNote :: "PianoKeyProps \<Rightarrow> KeyWorld \<Rightarrow> KeyWorld" where
  "stopNote p w =
     (case sampler p of
        None \<Rightarrow> w
      | Some s \<Rightarrow> w\<lparr>calls := calls w @ [triggerRelease (noteId (note p) (octave p))],
                     isPressed := False\<rparr>)"

text \<open>
  The window listeners exist only under \<^verbatim>\<open>if (keyBinding)\<close>: the binding is neither
  \<^verbatim>\<open>undefined\<close> nor the empty string.
\<close>

definition truthy :: "string option \<Rightarrow> bool" where
  "truthy b = (case b of None \<Rightarrow> False | Some s \<Rightarrow> s \<noteq> [])"

definition handleKeyDown :: "PianoKeyProps \<Rightarrow> KeyboardEvent \<Rightarrow> KeyWorld \<Rightarrow> KeyWorld" where
  "handleKeyDown p e w =
     (if Some (key e) = keyBinding p \<and> \<not> repeat e then playNote p w else w)"

definition handleKeyUp :: "PianoKeyProps \<Rightarrow> KeyboardEvent \<Rightarrow> KeyWorld \<Rightarrow> KeyWorld" where
  "handleKeyUp p e w =
     (if Some (key e) = keyBinding p then stopNote p w else w)"

datatype key_event =
    onTouchStart | onTouchEnd | onMouseDown | onMouseUp | onMouseLeave
  | keydown KeyboardEvent | keyup KeyboardEvent

fun PianoKey :: "PianoKeyProps \<Rightarrow> key_event \<Rightarrow> KeyWorld \<Rightarrow> KeyWorld" where
  "PianoKey p onTouchStart w = playNote p (w\<lparr>defaultPrevented := True\<rparr>)"
| "PianoKey p onTouchEnd w = stopNote p w"
| "PianoKey p onMouseDown w = playNote p w"
| "PianoKey p onMouseUp w = stopNote p w"
| "PianoKey p onMouseLeave w = (if isPressed w then stopNote p w else w)"
| "PianoKey p (keydown e) w = (if truthy (keyBinding p) then handleKeyDown p e w else w)"
| "PianoKey p (keyup e) w = (if truthy (keyBinding p) then handleKeyUp p e w else w)"

subsection \<open>The surface: \<^verbatim>\<open>Piano\<close>\<close>

text \<open>
  The state of the mounted surface: the two React cells (\<^verbatim>\<open>isLoading\<close>,
  \<^verbatim>\<open>samplerRef\<close>), the sampler whose \<^verbatim>\<open>await Tone.loaded()\<close> is pending, and what the
  last render put on the page. While \<^verbatim>\<open>isLoading\<close> holds, the render is the placeholder:
  there is no scroll container (\<^verbatim>\<open>scrollContainerRef.current\<close> is \<^verbatim>\<open>null\<close>, here
  \<open>scrollLeft = None\<close>) and there are no keys (\<open>pressedKeys = []\<close>). Otherwise the
  container is on the page with one \<^verbatim>\<open>PianoKey\<close> per entry of \<^verbatim>\<open>allKeys\<close>, each with
  the sampler read from \<^verbatim>\<open>samplerRef.current\<close> by that render (\<open>keySampler\<close>).
\<close>

record PianoState =
  isLoading :: bool
  samplerRef :: "Sampler option"
  pendingLoad :: "Sampler option"
  disposed :: "Sampler list"
  keySampler :: "Sampler option"
  pressedKeys :: "bool list"
  scrollLeft :: "int option"
  wheelListener :: bool
  engineLog :: "engine_call list"
  prevented :: bool

record WheelEvent =
  deltaX :: int
  deltaY :: int
  deltaMode :: nat

text \<open>The render of \<^verbatim>\<open>Piano\<close>: the conditional of the returned tree.\<close>

definition render :: "PianoState \<Rightarrow> PianoState" where
  "render s =
     (if isLoading s
      then s\<lparr>keySampler := None, pressedKeys := [], scrollLeft := None\<rparr>
      else s\<lparr>keySampler := samplerRef s,
             pressedKeys := (if pressedKeys s = [] then map (\<lambda>k. False) allKeys
                             else pressedKeys s),
             scrollLeft := (case scrollLeft s of None \<Rightarrow> Some 0 | Some x \<Rightarrow> Some x)\<rparr>)"

text \<open>
  \<^verbatim>\<open>loadPiano\<close> up to \<^verbatim>\<open>await Tone.loaded()\<close>, and its continuation once the samples
  have loaded.
\<close>

definition loadPiano :: "PianoState \<Rightarrow> PianoState" where
  "loadPiano s =
     (let s1 = s\<lparr>isLoading := True\<rparr>;
          s2 = (case samplerRef s1 of
                  None \<Rightarrow> s1
                | Some old \<Rightarrow> s1\<lparr>disposed := disposed s1 @ [old]\<rparr>)
      in s2\<lparr>pendingLoad := Some newSampler\<rparr>)"

definition loaded :: "PianoState \<Rightarrow> PianoState" where
  "loaded s =
     (case pendingLoad s of
        None \<Rightarrow> s
      | Some smp \<Rightarrow>
          render (s\<lparr>samplerRef := Some smp, isLoading := False, pendingLoad := None\<rparr>))"

text \<open>
  The second effect: \<^verbatim>\<open>const container = scrollContainerRef.current; if (container)
  { ... container.addEventListener("wheel", handleWheel) ... }\<close>.
\<close>

definition handleWheel :: "WheelEvent \<Rightarrow> PianoState \<Rightarrow> PianoState" where
  "handleWheel e s =
     (if deltaY e \<noteq> 0
      then s\<lparr>prevented := True, scrollLeft := map_option (\<lambda>x. x + deltaY e) (scrollLeft s)\<rparr>
      else s)"

definition wheelEffect :: "PianoState \<Rightarrow> PianoState" where
  "wheelEffect s =
     (case scrollLeft s of
        None \<Rightarrow> s
      | Some container \<Rightarrow> s\<lparr>wheelListener := True\<rparr>)"

text \<open>
  Mounting: the first render, with the initial values of the cells, and then the two
  effects in the order they are declared. Both effects have the dependency list
  \<^verbatim>\<open>[]\<close>, so React runs them after this first render and after no later one.
\<close>

definition initial :: PianoState where
  "initial =
     \<lparr>isLoading = True, samplerRef = None, pendingLoad = None, disposed = [],
      keySampler = None, pressedKeys = [], scrollLeft = None, wheelListener = False,
      engineLog = [], prevented = False\<rparr>"

definition mount :: PianoState where
  "mount = wheelEffect (loadPiano (render initial))"

text \<open>The props the render hands to the \<open>i\<close>-th key.\<close>

definition propsOf :: "PianoState \<Rightarrow> nat \<Rightarrow> PianoKeyProps" where
  "propsOf s i = Key.extend (allKeys ! i) (PianoKeyProps.fields (keySampler s))"

text \<open>
  Delivering an event to the \<open>i\<close>-th key: its handler runs on that key's
  \<^verbatim>\<open>isPressed\<close> and on the sampler. A key that is not on the page receives nothing.
\<close>

definition deliver :: "nat \<Rightarrow> key_event \<Rightarrow> PianoState \<Rightarrow> PianoState" where
  "deliver i ev s =
     (if i < length (pressedKeys s) \<and> i < length allKeys then
        (let w = PianoKey (propsOf s i) ev
                   \<lparr>isPressed = pressedKeys s ! i, calls = engineLog s,
                    defaultPrevented = prevented s\<rparr>
         in s\<lparr>pressedKeys := (pressedKeys s)[i := isPressed w],
               engineLog := calls w,
               prevented := defaultPrevented w\<rparr>)
      else s)"

text \<open>
  A keyboard event on the window reaches the listener of every key on the page, in the
  order the keys were rendered.
\<close>

definition broadcast :: "key_event \<Rightarrow> PianoState \<Rightarrow> PianoState" where
  "broadcast ev s = fold (\<lambda>i. deliver i ev) [0..<length (pressedKeys s)] s"

datatype piano_event =
    ToneLoaded
  | Pointer nat key_event
  | WindowKeyDown KeyboardEvent
  | WindowKeyUp KeyboardEvent
  | Wheel WheelEvent

fun Piano :: "PianoState \<Rightarrow> piano_event \<Rightarrow> PianoState" where
  "Piano s ToneLoaded = loaded s"
| "Piano s (Pointer i ev) = deliver i ev (s\<lparr>prevented := False\<rparr>)"
| "Piano s (WindowKeyDown e) = broadcast (keydown e) (s\<lparr>prevented := False\<rparr>)"
| "Piano s (WindowKeyUp e) = broadcast (keyup e) (s\<lparr>prevented := False\<rparr>)"
| "Piano s (Wheel e) =
     (if scrollLeft s \<noteq> None \<and> wheelListener s
      then handleWheel e (s\<lparr>prevented := False\<rparr>)
      else s\<lparr>prevented := False\<rparr>)"

text \<open>The states the mounted surface can be in: \<open>mount\<close> and whatever events lead to.\<close>

definition run :: "piano_event list \<Rightarrow> PianoState" where
  "run evs = foldl Piano mount evs"

subsection \<open>Notions the specification uses\<close>

text \<open>
  The source has no function for the following; they put the specification's words
  into terms so that the tables can be compared with them. The semitone index of a note
  name is its position in \<^verbatim>\<open>NOTES\<close>; the table order is by octave, then by semitone
  index; the file of a sampled note is its identifier with every sharp sign spelled
  \<^verbatim>\<open>s\<close>, followed by \<^verbatim>\<open>.mp3\<close>; the register of a note identifier is its last character.
\<close>

definition semitoneIndex :: "string \<Rightarrow> nat" where
  "semitoneIndex n = length (takeWhile (\<lambda>m. m \<noteq> n) NOTES)"

definition keyBefore :: "Key \<Rightarrow> Key \<Rightarrow> bool" where
  "keyBefore a b =
     (octave a < octave b
      \<or> (octave a = octave b \<and> semitoneIndex (note a) < semitoneIndex (note b)))"

definition sampleFile :: "string \<Rightarrow> string" where
  "sampleFile n = map (\<lambda>c. if c = CHR ''#'' then CHR ''s'' else c) n @ ''.mp3''"

definition registerOf :: "string \<Rightarrow> char" where
  "registerOf n = last n"

section \<open>Evaluating the tables\<close>

lemma is_array_index_digits:
  "is_array_index ''2''" "is_array_index ''3''" "is_array_index ''5''"
  "is_array_index ''6''" "is_array_index ''7''"
  by (simp_all add: is_array_index_def is_digit_def parse_decimal_def digit_value_def)

lemma not_array_index_letter: "c \<notin> set ''0123456789'' \<Longrightarrow> \<not> is_array_index [c]"
  by (simp add: is_array_index_def is_digit_def)

lemma entries_KEYBOARD_MAP:
  "Object_entries KEYBOARD_MAP =
     [(''2'', ''C#4''), (''3'', ''D#4''), (''5'', ''F#4''), (''6'', ''G#4''), (''7'', ''A#4''),
      (''z'', ''C3''), (''s'', ''C#3''), (''x'', ''D3''), (''d'', ''D#3''),
      (''c'', ''E3''), (''v'', ''F3''), (''g'', ''F#3''), (''b'', ''G3''),
      (''h'', ''G#3''), (''n'', ''A3''), (''j'', ''A#3''), (''m'', ''B3''),
      (''q'', ''C4''), (''w'', ''D4''), (''e'', ''E4''), (''r'', ''F4''),
      (''t'', ''G4''), (''y'', ''A4''), (''u'', ''B4'')]"
proof -
  have "filter (\<lambda>kv. is_array_index (fst kv)) KEYBOARD_MAP =
          [(''2'', ''C#4''), (''3'', ''D#4''), (''5'', ''F#4''), (''6'', ''G#4''), (''7'', ''A#4'')]"
    by (simp add: KEYBOARD_MAP_def is_array_index_digits not_array_index_letter)
  moreover have "filter (\<lambda>kv. \<not> is_array_index (fst kv)) KEYBOARD_MAP =
          [(''z'', ''C3''), (''s'', ''C#3''), (''x'', ''D3''), (''d'', ''D#3''),
           (''c'', ''E3''), (''v'', ''F3''), (''g'', ''F#3''), (''b'', ''G3''),
           (''h'', ''G#3''), (''n'', ''A3''), (''j'', ''A#3''), (''m'', ''B3''),
           (''q'', ''C4''), (''w'', ''D4''), (''e'', ''E4''), (''r'', ''F4''),
           (''t'', ''G4''), (''y'', ''A4''), (''u'', ''B4'')]"
    by (simp add: KEYBOARD_MAP_def is_array_index_digits not_array_index_letter)
  ultimately show ?thesis
    by (simp add: Object_entries_def parse_decimal_def digit_value_def)
qed

lemma noteId_octaves:
  "noteId n 3 = n @ ''3''" "noteId n 4 = n @ ''4''" "noteId n 5 = n @ ''5''"
  by (simp_all add: noteId_def Number_toString.simps digit_char_def)

lemma notesLoop_acc: "notesLoop ns oct acc = acc @ notesLoop ns oct []"
proof (induction ns arbitrary: acc)
  case Nil
  show ?case by simp
next
  case (Cons n ns)
  have "notesLoop (n # ns) oct acc = pushKey acc n oct @ notesLoop ns oct []"
    using Cons.IH [of "pushKey acc n oct"] by simp
  also have "\<dots> = acc @ (pushKey [] n oct @ notesLoop ns oct [])"
    by (simp add: pushKey_def)
  also have "pushKey [] n oct @ notesLoop ns oct [] = notesLoop (n # ns) oct []"
    using Cons.IH [of "pushKey [] n oct"] by simp
  finally show ?case .
qed

lemma octaveLoop_from_3:
  "octaveLoop 3 acc = notesLoop NOTES 5 (notesLoop NOTES 4 (notesLoop NOTES 3 acc))"
proof -
  have "octaveLoop 6 a = a" for a
    by (subst octaveLoop.simps) (simp add: END_OCTAVE_def)
  then have "octaveLoop 5 a = notesLoop NOTES 5 a" for a
    by (subst octaveLoop.simps) (simp add: END_OCTAVE_def)
  then have "octaveLoop 4 a = notesLoop NOTES 5 (notesLoop NOTES 4 a)" for a
    by (subst octaveLoop.simps) (simp add: END_OCTAVE_def)
  then show ?thesis
    by (subst octaveLoop.simps) (simp add: END_OCTAVE_def)
qed

lemma allKeys_octaves:
  "allKeys = notesLoop NOTES 3 [] @ notesLoop NOTES 4 [] @ notesLoop NOTES 5 []"
proof -
  have "allKeys = notesLoop NOTES 5 (notesLoop NOTES 4 (notesLoop NOTES 3 []))"
    by (simp add: allKeys_def START_OCTAVE_def octaveLoop_from_3)
  also have "\<dots> = notesLoop NOTES 4 (notesLoop NOTES 3 []) @ notesLoop NOTES 5 []"
    by (rule notesLoop_acc)
  also have "notesLoop NOTES 4 (notesLoop NOTES 3 []) = notesLoop NOTES 3 [] @ notesLoop NOTES 4 []"
    by (rule notesLoop_acc)
  finally show ?thesis by simp
qed

lemma octave_3_keys:
  "notesLoop NOTES 3 [] =
     [\<lparr>note = ''C'', octave = 3, keyBinding = Some ''z'', isBlack = False\<rparr>,
      \<lparr>note = ''C#'', octave = 3, keyBinding = Some ''s'', isBlack = True\<rparr>,
      \<lparr>note = ''D'', octave = 3, keyBinding = Some ''x'', isBlack = False\<rparr>,
      \<lparr>note = ''D#'', octave = 3, keyBinding = Some ''d'', isBlack = True\<rparr>,
      \<lparr>note = ''E'', octave = 3, keyBinding = Some ''c'', isBlack = False\<rparr>,
      \<lparr>note = ''F'', octave = 3, keyBinding = Some ''v'', isBlack = False\<rparr>,
      \<lparr>note = ''F#'', octave = 3, keyBinding = Some ''g'', isBlack = True\<rparr>,
      \<lparr>note = ''G'', octave = 3, keyBinding = Some ''b'', isBlack = False\<rparr>,
      \<lparr>note = ''G#'', octave = 3, keyBinding = Some ''h'', isBlack = True\<rparr>,
      \<lparr>note = ''A'', octave = 3, keyBinding = Some ''n'', isBlack = False\<rparr>,
      \<lparr>note = ''A#'', octave = 3, keyBinding = Some ''j'', isBlack = True\<rparr>,
      \<lparr>note = ''B'', octave = 3, keyBinding = Some ''m'', isBlack = False\<rparr>]"
  by (simp add: NOTES_def pushKey_def lookupBinding_def entries_KEYBOARD_MAP noteId_octaves)

lemma octave_4_keys:
  "notesLoop NOTES 4 [] =
     [\<lparr>note = ''C'', octave = 4, keyBinding = Some ''q'', isBlack = False\<rparr>,
      \<lparr>note = ''C#'', octave = 4, keyBinding = Some ''2'', isBlack = True\<rparr>,
      \<lparr>note = ''D'', octave = 4, keyBinding = Some ''w'', isBlack = False\<rparr>,
      \<lparr>note = ''D#'', octave = 4, keyBinding = Some ''3'', isBlack = True\<rparr>,
      \<lparr>note = ''E'', octave = 4, keyBinding = Some ''e'', isBlack = False\<rparr>,
      \<lparr>note = ''F'', octave = 4, keyBinding = Some ''r'', isBlack = False\<rparr>,
      \<lparr>note = ''F#'', octave = 4, keyBinding = Some ''5'', isBlack = True\<rparr>,
      \<lparr>note = ''G'', octave = 4, keyBinding = Some ''t'', isBlack = False\<rparr>,
      \<lparr>note = ''G#'', octave = 4, keyBinding = Some ''6'', isBlack = True\<rparr>,
      \<lparr>note = ''A'', octave = 4, keyBinding = Some ''y'', isBlack = False\<rparr>,
      \<lparr>note = ''A#'', octave = 4, keyBinding = Some ''7'', isBlack = True\<rparr>,
      \<lparr>note = ''B'', octave = 4, keyBinding = Some ''u'', isBlack = False\<rparr>]"
  by (simp add: NOTES_def pushKey_def lookupBinding_def entries_KEYBOARD_MAP noteId_octaves)

lemma octave_5_keys:
  "notesLoop NOTES 5 [] =
     [\<lparr>note = ''C'', octave = 5, keyBinding = None, isBlack = False\<rparr>,
      \<lparr>note = ''C#'', octave = 5, keyBinding = None, isBlack = True\<rparr>,
      \<lparr>note = ''D'', octave = 5, keyBinding = None, isBlack = False\<rparr>,
      \<lparr>note = ''D#'', octave = 5, keyBinding = None, isBlack = True\<rparr>,
      \<lparr>note = ''E'', octave = 5, keyBinding = None, isBlack = False\<rparr>,
      \<lparr>note = ''F'', octave = 5, keyBinding = None, isBlack = False\<rparr>,
      \<lparr>note = ''F#'', octave = 5, keyBinding = None, isBlack = True\<rparr>,
      \<lparr>note = ''G'', octave = 5, keyBinding = None, isBlack = False\<rparr>,
      \<lparr>note = ''G#'', octave = 5, keyBinding = None, isBlack = True\<rparr>,
      \<lparr>note = ''A'', octave = 5, keyBinding = None, isBlack = False\<rparr>,
      \<lparr>note = ''A#'', octave = 5, keyBinding = None, isBlack = True\<rparr>,
      \<lparr>note = ''B'', octave = 5, keyBinding = None, isBlack = False\<rparr>]"
  by (simp add: NOTES_def pushKey_def lookupBinding_def entries_KEYBOARD_MAP noteId_octaves)

lemma allKeys_eval:
  "allKeys =
     [\<lparr>note = ''C'', octave = 3, keyBinding = Some ''z'', isBlack = False\<rparr>,
      \<lparr>note = ''C#'', octave = 3, keyBinding = Some ''s'', isBlack = True\<rparr>,
      \<lparr>note = ''D'', octave = 3, keyBinding = Some ''x'', isBlack = False\<rparr>,
      \<lparr>note = ''D#'', octave = 3, keyBinding = Some ''d'', isBlack = True\<rparr>,
      \<lparr>note = ''E'', octave = 3, keyBinding = Some ''c'', isBlack = False\<rparr>,
      \<lparr>note = ''F'', octave = 3, keyBinding = Some ''v'', isBlack = False\<rparr>,
      \<lparr>note = ''F#'', octave = 3, keyBinding = Some ''g'', isBlack = True\<rparr>,
      \<lparr>note = ''G'', octave = 3, keyBinding = Some ''b'', isBlack = False\<rparr>,
      \<lparr>note = ''G#'', octave = 3, keyBinding = Some ''h'', isBlack = True\<rparr>,
      \<lparr>note = ''A'', octave = 3, keyBinding = Some ''n'', isBlack = False\<rparr>,
      \<lparr>note = ''A#'', octave = 3, keyBinding = Some ''j'', isBlack = True\<rparr>,
      \<lparr>note = ''B'', octave = 3, keyBinding = Some ''m'', isBlack = False\<rparr>,
      \<lparr>note = ''C'', octave = 4, keyBinding = Some ''q'', isBlack = False\<rparr>,
      \<lparr>note = ''C#'', octave = 4, keyBinding = Some ''2'', isBlack = True\<rparr>,
      \<lparr>note = ''D'', octave = 4, keyBinding = Some ''w'', isBlack = False\<rparr>,
      \<lparr>note = ''D#'', octave = 4, keyBinding = Some ''3'', isBlack = True\<rparr>,
      \<lparr>note = ''E'', octave = 4, keyBinding = Some ''e'', isBlack = False\<rparr>,
      \<lparr>note = ''F'', octave = 4, keyBinding = Some ''r'', isBlack = False\<rparr>,
      \<lparr>note = ''F#'', octave = 4, keyBinding = Some ''5'', isBlack = True\<rparr>,
      \<lparr>note = ''G'', octave = 4, keyBinding = Some ''t'', isBlack = False\<rparr>,
      \<lparr>note = ''G#'', octave = 4, keyBinding = Some ''6'', isBlack = True\<rparr>,
      \<lparr>note = ''A'', octave = 4, keyBinding = Some ''y'', isBlack = False\<rparr>,
      \<lparr>note = ''A#'', octave = 4, keyBinding = Some ''7'', isBlack = True\<rparr>,
      \<lparr>note = ''B'', octave = 4, keyBinding = Some ''u'', isBlack = False\<rparr>,
      \<lparr>note = ''C'', octave = 5, keyBinding = None, isBlack = False\<rparr>,
      \<lparr>note = ''C#'', octave = 5, keyBinding = None, isBlack = True\<rparr>,
      \<lparr>note = ''D'', octave = 5, keyBinding = None, isBlack = False\<rparr>,
      \<lparr>note = ''D#'', octave = 5, keyBinding = None, isBlack = True\<rparr>,
      \<lparr>note = ''E'', octave = 5, keyBinding = None, isBlack = False\<rparr>,
      \<lparr>note = ''F'', octave = 5, keyBinding = None, isBlack = False\<rparr>,
      \<lparr>note = ''F#'', octave = 5, keyBinding = None, isBlack = True\<rparr>,
      \<lparr>note = ''G'', octave = 5, keyBinding = None, isBlack = False\<rparr>,
      \<lparr>note = ''G#'', octave = 5, keyBinding = None, isBlack = True\<rparr>,
      \<lparr>note = ''A'', octave = 5, keyBinding = None, isBlack = False\<rparr>,
      \<lparr>note = ''A#'', octave = 5, keyBinding = None, isBlack = True\<rparr>,
      \<lparr>note = ''B'', octave = 5, keyBinding = None, isBlack = False\<rparr>]"
  by (simp add: allKeys_octaves octave_3_keys octave_4_keys octave_5_keys)

lemma String_includes_char: "String_includes s [c] \<longleftrightarrow> c \<in> set s"
  by (induction s) auto

lemma semitoneIndex_NOTES: "map semitoneIndex NOTES = [0..<12]"
  by (simp add: semitoneIndex_def NOTES_def upt_rec)

lemma octave_range: "oct \<in> {START_OCTAVE..END_OCTAVE} \<longleftrightarrow> oct = 3 \<or> oct = 4 \<or> oct = 5"
  by (auto simp: START_OCTAVE_def END_OCTAVE_def)

section \<open>The key table\<close>

text \<open>
  C1. The key table has exactly 36 entries: one for each pair of an octave in the
  inclusive range from 3 to 5 and one of the 12 notes, in the order of increasing
  octave and, within an octave, of increasing semitone index. Read as pairs of octave
  and note, the table is the product of the octave range with \<^verbatim>\<open>NOTES\<close>, octave first,
  and every entry comes strictly before the next in the order of the specification.
\<close>

theorem allKeys_table:
  "length allKeys = 36
   \<and> length NOTES = 12 \<and> distinct NOTES
   \<and> map (\<lambda>k. (octave k, note k)) allKeys = List.product [START_OCTAVE ..< Suc END_OCTAVE] NOTES
   \<and> sorted_wrt keyBefore allKeys"
proof -
  have len: "length allKeys = 36"
    by (simp add: allKeys_eval)
  have nts: "length NOTES = 12 \<and> distinct NOTES"
    by (simp add: NOTES_def)
  have prod: "map (\<lambda>k. (octave k, note k)) allKeys
                = List.product [START_OCTAVE ..< Suc END_OCTAVE] NOTES"
    by (simp add: allKeys_eval START_OCTAVE_def END_OCTAVE_def NOTES_def upt_rec)
  have idx: "semitoneIndex ''C'' = 0" "semitoneIndex ''C#'' = 1" "semitoneIndex ''D'' = 2"
    "semitoneIndex ''D#'' = 3" "semitoneIndex ''E'' = 4" "semitoneIndex ''F'' = 5"
    "semitoneIndex ''F#'' = 6" "semitoneIndex ''G'' = 7" "semitoneIndex ''G#'' = 8"
    "semitoneIndex ''A'' = 9" "semitoneIndex ''A#'' = 10" "semitoneIndex ''B'' = 11"
    by (simp_all add: semitoneIndex_def NOTES_def)
  have ord: "sorted_wrt keyBefore allKeys"
    by (simp add: allKeys_eval keyBefore_def idx)
  from len nts prod ord show ?thesis by blast
qed

text \<open>
  C2. For every key of the table, \<^verbatim>\<open>isBlack\<close> holds exactly when the note name
  contains the sharp sign, and in each of the octaves 3, 4 and 5 exactly 5 of the 12
  keys are black.
\<close>

theorem isBlack_iff_sharp:
  "(\<forall>k \<in> set allKeys. isBlack k \<longleftrightarrow> CHR ''#'' \<in> set (note k))
   \<and> (\<forall>oct \<in> {START_OCTAVE..END_OCTAVE}.
         length (filter (\<lambda>k. octave k = oct) allKeys) = 12
         \<and> length (filter (\<lambda>k. octave k = oct \<and> isBlack k) allKeys) = 5)"
proof -
  have sharp: "\<forall>k \<in> set allKeys. isBlack k \<longleftrightarrow> CHR ''#'' \<in> set (note k)"
    by (simp add: allKeys_eval)
  have per_octave: "length (filter (\<lambda>k. octave k = oct) allKeys) = 12
      \<and> length (filter (\<lambda>k. octave k = oct \<and> isBlack k) allKeys) = 5"
    if "oct = 3 \<or> oct = 4 \<or> oct = 5" for oct
    using that by (auto simp: allKeys_eval)
  have "oct = 3 \<or> oct = 4 \<or> oct = 5" if "oct \<in> {START_OCTAVE..END_OCTAVE}" for oct
    using that octave_range by blast
  with sharp per_octave show ?thesis
    by blast
qed

theorem isBlack_iff_sharp_witness:
  "allKeys ! 1 \<in> set allKeys \<and> isBlack (allKeys ! 1) \<and> CHR ''#'' \<in> set (note (allKeys ! 1))
   \<and> 4 \<in> {START_OCTAVE..END_OCTAVE}
   \<and> length (filter (\<lambda>k. octave k = 4 \<and> isBlack k) allKeys) = 5"
proof -
  have mem: "allKeys ! 1 \<in> set allKeys"
    by (simp add: allKeys_eval)
  have sharp: "CHR ''#'' \<in> set (note (allKeys ! 1))"
    by (simp add: allKeys_eval)
  have oct: "4 \<in> {START_OCTAVE..END_OCTAVE}"
    by (simp add: START_OCTAVE_def END_OCTAVE_def)
  from isBlack_iff_sharp mem sharp have "isBlack (allKeys ! 1)"
    by blast
  moreover from isBlack_iff_sharp oct
  have "length (filter (\<lambda>k. octave k = 4 \<and> isBlack k) allKeys) = 5"
    by blast
  ultimately show ?thesis
    using mem sharp oct by blast
qed

section \<open>The key bindings\<close>

text \<open>
  C3. The key-binding map has exactly 24 entries (the literal names 24 different
  physical keys, and \<^verbatim>\<open>Object.entries\<close> lists 24 pairs), and no two entries have the
  same note identifier as their value.
\<close>

theorem KEYBOARD_MAP_injective:
  "length KEYBOARD_MAP = 24 \<and> distinct (map fst KEYBOARD_MAP)
   \<and> length (Object_entries KEYBOARD_MAP) = 24
   \<and> distinct (map snd (Object_entries KEYBOARD_MAP))"
proof -
  have "length KEYBOARD_MAP = 24"
    by (simp add: KEYBOARD_MAP_def)
  moreover have "distinct (map fst KEYBOARD_MAP)"
    by (simp add: KEYBOARD_MAP_def)
  moreover have "length (Object_entries KEYBOARD_MAP) = 24"
    by (simp add: entries_KEYBOARD_MAP)
  moreover have "distinct (map snd (Object_entries KEYBOARD_MAP))"
    by (simp add: entries_KEYBOARD_MAP)
  ultimately show ?thesis by blast
qed

text \<open>
  C4. For every entry of the key-binding map, exactly one key of the table has the
  entry's value as its identifier, and the \<^verbatim>\<open>keyBinding\<close> of that key is the entry's
  physical key; a key whose identifier is the value of no entry has no binding.
\<close>

theorem keyBinding_resolution:
  "(\<forall>(physicalKey, nid) \<in> set (Object_entries KEYBOARD_MAP).
      \<exists>k. filter (\<lambda>k. noteId (note k) (octave k) = nid) allKeys = [k]
          \<and> keyBinding k = Some physicalKey)
   \<and> (\<forall>k \<in> set allKeys.
         noteId (note k) (octave k) \<notin> snd ` set (Object_entries KEYBOARD_MAP)
         \<longrightarrow> keyBinding k = None)"
proof -
  have bound: "\<forall>(physicalKey, nid) \<in> set (Object_entries KEYBOARD_MAP).
      \<exists>k. filter (\<lambda>k. noteId (note k) (octave k) = nid) allKeys = [k]
          \<and> keyBinding k = Some physicalKey"
    by (simp add: entries_KEYBOARD_MAP allKeys_eval noteId_octaves)
  have unbound: "\<forall>k \<in> set allKeys.
         noteId (note k) (octave k) \<notin> snd ` set (Object_entries KEYBOARD_MAP)
         \<longrightarrow> keyBinding k = None"
    by (simp add: entries_KEYBOARD_MAP allKeys_eval noteId_octaves)
  from bound unbound show ?thesis by blast
qed

theorem keyBinding_resolution_witness:
  "(''q'', ''C4'') \<in> set (Object_entries KEYBOARD_MAP)
   \<and> (\<exists>k. filter (\<lambda>k. noteId (note k) (octave k) = ''C4'') allKeys = [k]
           \<and> keyBinding k = Some ''q'')
   \<and> allKeys ! 24 \<in> set allKeys
   \<and> noteId (note (allKeys ! 24)) (octave (allKeys ! 24))
         \<notin> snd ` set (Object_entries KEYBOARD_MAP)
   \<and> keyBinding (allKeys ! 24) = None"
proof -
  have entry: "(''q'', ''C4'') \<in> set (Object_entries KEYBOARD_MAP)"
    by (simp add: entries_KEYBOARD_MAP)
  have mem: "allKeys ! 24 \<in> set allKeys"
    by (simp add: allKeys_eval)
  have free: "noteId (note (allKeys ! 24)) (octave (allKeys ! 24))
                \<notin> snd ` set (Object_entries KEYBOARD_MAP)"
    by (simp add: entries_KEYBOARD_MAP allKeys_eval noteId_octaves)
  from keyBinding_resolution entry
  have "\<exists>k. filter (\<lambda>k. noteId (note k) (octave k) = ''C4'') allKeys = [k]
           \<and> keyBinding k = Some ''q''"
    by fastforce
  moreover from keyBinding_resolution mem free have "keyBinding (allKeys ! 24) = None"
    by blast
  ultimately show ?thesis
    using entry mem free by blast
qed

section \<open>The sampler configuration\<close>

text \<open>
  C5, as the specification counts: the sampler configuration declares exactly 31 sample
  files. The \<^verbatim>\<open>urls\<close> object of the source has another number of entries.
\<close>

theorem sampler_urls_not_31: "length (urls newSampler) \<noteq> 31"
  by (simp add: newSampler_def)

text \<open>
  C5, amended. The sampler configuration declares exactly 30 sample files, one per
  sampled note, the notes spanning the registers 0 to 8; every file name is the note
  identifier with the sharp sign spelled \<^verbatim>\<open>s\<close>, followed by \<^verbatim>\<open>.mp3\<close>, so that the entry
  for \<^verbatim>\<open>D#3\<close> is \<^verbatim>\<open>Ds3.mp3\<close>.
\<close>

theorem sampler_urls_table:
  "length (urls newSampler) = 30 \<and> distinct (map fst (urls newSampler))
   \<and> (\<forall>(n, file) \<in> set (urls newSampler). file = sampleFile n)
   \<and> registerOf ` fst ` set (urls newSampler) = set ''012345678''
   \<and> map_of (urls newSampler) ''D#3'' = Some ''Ds3.mp3''"
proof -
  have "length (urls newSampler) = 30"
    by (simp add: newSampler_def)
  moreover have "distinct (map fst (urls newSampler))"
    by (simp add: newSampler_def)
  moreover have "\<forall>(n, file) \<in> set (urls newSampler). file = sampleFile n"
    by (simp add: newSampler_def sampleFile_def)
  moreover have "registerOf ` fst ` set (urls newSampler) = set ''012345678''"
    by (auto simp: newSampler_def registerOf_def)
  moreover have "map_of (urls newSampler) ''D#3'' = Some ''Ds3.mp3''"
    by (simp add: newSampler_def)
  ultimately show ?thesis by blast
qed

theorem sampler_urls_table_witness:
  "(''D#3'', ''Ds3.mp3'') \<in> set (urls newSampler) \<and> ''Ds3.mp3'' = sampleFile ''D#3''"
proof -
  have entry: "(''D#3'', ''Ds3.mp3'') \<in> set (urls newSampler)"
    by (simp add: newSampler_def)
  with sampler_urls_table have "''Ds3.mp3'' = sampleFile ''D#3''"
    by fastforce
  with entry show ?thesis by blast
qed

section \<open>The handlers of one key\<close>

text \<open>
  C6. While the sampler reference is \<^verbatim>\<open>null\<close>, whatever event reaches a key (pointer,
  touch or keyboard, attack or release), no call is added to those the sampler has
  received and the key's pressed state stays as it was.
\<close>

theorem not_ready_noop:
  "sampler p = None \<Longrightarrow>
     calls (PianoKey p ev w) = calls w \<and> isPressed (PianoKey p ev w) = isPressed w"
  by (cases ev) (simp_all add: playNote_def stopNote_def handleKeyDown_def handleKeyUp_def)

theorem not_ready_noop_witness:
  "sampler \<lparr>note = ''C'', octave = 4, keyBinding = Some ''q'', isBlack = False, sampler = None\<rparr> = None
   \<and> calls (PianoKey \<lparr>note = ''C'', octave = 4, keyBinding = Some ''q'', isBlack = False, sampler = None\<rparr>
               onMouseDown \<lparr>isPressed = False, calls = [], defaultPrevented = False\<rparr>) = []
   \<and> \<not> isPressed (PianoKey \<lparr>note = ''C'', octave = 4, keyBinding = Some ''q'', isBlack = False, sampler = None\<rparr>
               onMouseDown \<lparr>isPressed = False, calls = [], defaultPrevented = False\<rparr>)"
  using not_ready_noop [of "\<lparr>note = ''C'', octave = 4, keyBinding = Some ''q'', isBlack = False, sampler = None\<rparr>"
      onMouseDown "\<lparr>isPressed = False, calls = [], defaultPrevented = False\<rparr>"]
  by simp

text \<open>
  C10. With a sampler present, a mouse-up or a touch-end on a key that is not pressed
  still calls \<^verbatim>\<open>triggerRelease\<close> with the key's identifier, and leaves the key
  released; a pointer-leave on the same key calls nothing.
\<close>

theorem release_not_guarded:
  "sampler p = Some s \<Longrightarrow> \<not> isPressed w \<Longrightarrow>
     PianoKey p onMouseUp w = w\<lparr>calls := calls w @ [triggerRelease (noteId (note p) (octave p))]\<rparr>
     \<and> PianoKey p onTouchEnd w = w\<lparr>calls := calls w @ [triggerRelease (noteId (note p) (octave p))]\<rparr>
     \<and> PianoKey p onMouseLeave w = w"
  by (simp add: stopNote_def)

theorem release_not_guarded_witness:
  "sampler \<lparr>note = ''D'', octave = 5, keyBinding = None, isBlack = False, sampler = Some newSampler\<rparr>
     = Some newSampler
   \<and> \<not> isPressed \<lparr>isPressed = False, calls = [], defaultPrevented = False\<rparr>
   \<and> PianoKey \<lparr>note = ''D'', octave = 5, keyBinding = None, isBlack = False, sampler = Some newSampler\<rparr>
        onMouseUp \<lparr>isPressed = False, calls = [], defaultPrevented = False\<rparr>
       = \<lparr>isPressed = False, calls = [triggerRelease ''D5''], defaultPrevented = False\<rparr>"
  using release_not_guarded
    [of "\<lparr>note = ''D'', octave = 5, keyBinding = None, isBlack = False, sampler = Some newSampler\<rparr>"
        newSampler "\<lparr>isPressed = False, calls = [], defaultPrevented = False\<rparr>"]
  by (simp add: noteId_octaves)

text \<open>
  Two more facts about one key with a sampler: a key-down of the bound physical key
  attacks unless it is an auto-repeat, and a mouse-down followed by a mouse-leave
  attacks and then releases.
\<close>

lemma PianoKey_keydown:
  assumes "keyBinding p = Some b" "b \<noteq> []" "sampler p = Some s"
  shows "PianoKey p (keydown \<lparr>key = b, repeat = False\<rparr>) w =
           w\<lparr>calls := calls w @ [triggerAttack (noteId (note p) (octave p))], isPressed := True\<rparr>"
    and "PianoKey p (keydown \<lparr>key = b, repeat = True\<rparr>) w = w"
  using assms by (simp_all add: truthy_def handleKeyDown_def playNote_def)

lemma PianoKey_down_leave:
  assumes "sampler p = Some s"
  shows "PianoKey p onMouseLeave (PianoKey p onMouseDown w) =
           w\<lparr>calls := calls w @ [triggerAttack (noteId (note p) (octave p)),
                                  triggerRelease (noteId (note p) (octave p))],
             isPressed := False\<rparr>"
  using assms by (simp add: playNote_def stopNote_def)

section \<open>The mounted surface\<close>

lemma propsOf_fields:
  "sampler (propsOf s i) = keySampler s"
  "note (propsOf s i) = note (allKeys ! i)"
  "octave (propsOf s i) = octave (allKeys ! i)"
  "keyBinding (propsOf s i) = keyBinding (allKeys ! i)"
  by (simp_all add: propsOf_def Key.defs PianoKeyProps.defs)

lemma mount_eval:
  "mount = \<lparr>isLoading = True, samplerRef = None, pendingLoad = Some newSampler, disposed = [],
            keySampler = None, pressedKeys = [], scrollLeft = None, wheelListener = False,
            engineLog = [], prevented = False\<rparr>"
  by (simp add: mount_def wheelEffect_def loadPiano_def render_def initial_def)

lemma run_Nil: "run [] = mount"
  by (simp add: run_def)

lemma run_snoc: "run (evs @ [e]) = Piano (run evs) e"
  by (simp add: run_def)

lemma deliver_frame:
  "length (pressedKeys (deliver i ev s)) = length (pressedKeys s)"
  "keySampler (deliver i ev s) = keySampler s"
  "wheelListener (deliver i ev s) = wheelListener s"
  "scrollLeft (deliver i ev s) = scrollLeft s"
  by (simp_all add: deliver_def Let_def)

lemma fold_deliver_frame:
  "length (pressedKeys (fold (\<lambda>i. deliver i ev) js s)) = length (pressedKeys s)
   \<and> keySampler (fold (\<lambda>i. deliver i ev) js s) = keySampler s
   \<and> wheelListener (fold (\<lambda>i. deliver i ev) js s) = wheelListener s
   \<and> scrollLeft (fold (\<lambda>i. deliver i ev) js s) = scrollLeft s"
  by (induction js arbitrary: s) (simp_all add: deliver_frame)

lemma broadcast_frame:
  "length (pressedKeys (broadcast ev s)) = length (pressedKeys s)"
  "keySampler (broadcast ev s) = keySampler s"
  "wheelListener (broadcast ev s) = wheelListener s"
  "scrollLeft (broadcast ev s) = scrollLeft s"
  by (simp_all add: broadcast_def fold_deliver_frame)

lemma broadcast_empty: "pressedKeys (broadcast ev s) = [] \<longleftrightarrow> pressedKeys s = []"
  using broadcast_frame(1) [of ev s] by (metis length_0_conv)

text \<open>What holds of the surface whatever has happened since it was mounted.\<close>

lemma run_invariant:
  "(pressedKeys (run evs) = []
      \<or> length (pressedKeys (run evs)) = length allKeys \<and> keySampler (run evs) \<noteq> None)
   \<and> \<not> wheelListener (run evs)"
proof (induction evs rule: rev_induct)
  case Nil
  show ?case by (simp add: run_Nil mount_eval)
next
  case (snoc e evs)
  show ?case
  proof (cases e)
    case ToneLoaded
    with snoc show ?thesis
      by (auto simp: run_snoc loaded_def render_def split: option.splits)
  next
    case (Pointer i ev)
    with snoc show ?thesis
      by (auto simp: run_snoc deliver_frame deliver_def Let_def)
  next
    case (WindowKeyDown k)
    with snoc show ?thesis
      by (simp add: run_snoc broadcast_frame broadcast_empty)
  next
    case (WindowKeyUp k)
    with snoc show ?thesis
      by (simp add: run_snoc broadcast_frame broadcast_empty)
  next
    case (Wheel w)
    with snoc show ?thesis
      by (simp add: run_snoc handleWheel_def)
  qed
qed

subsection \<open>Events on the keys of the page\<close>

lemma deliver_attack:
  assumes "i < length (pressedKeys s)" "i < length allKeys" "keySampler s = Some smp"
  shows "deliver i onMouseDown s =
           s\<lparr>pressedKeys := (pressedKeys s)[i := True],
             engineLog := engineLog s @ [triggerAttack (noteId (note (allKeys ! i)) (octave (allKeys ! i)))]\<rparr>"
  using assms by (simp add: deliver_def playNote_def propsOf_fields)

lemma deliver_leave:
  assumes "i < length (pressedKeys s)" "i < length allKeys" "keySampler s = Some smp"
  shows "deliver i onMouseLeave s =
           (if pressedKeys s ! i
            then s\<lparr>pressedKeys := (pressedKeys s)[i := False],
                   engineLog := engineLog s @ [triggerRelease (noteId (note (allKeys ! i)) (octave (allKeys ! i)))]\<rparr>
            else s)"
  using assms by (simp add: deliver_def stopNote_def propsOf_fields list_update_same_conv)

lemma deliver_keydown_miss:
  "keyBinding (allKeys ! j) \<noteq> Some (key e) \<or> repeat e \<Longrightarrow> deliver j (keydown e) s = s"
  by (auto simp: deliver_def handleKeyDown_def propsOf_fields)

lemma deliver_keydown_hit:
  assumes "i < length (pressedKeys s)" "i < length allKeys" "keySampler s = Some smp"
    and "keyBinding (allKeys ! i) = Some (key e)" "key e \<noteq> []" "\<not> repeat e"
  shows "deliver i (keydown e) s =
           s\<lparr>pressedKeys := (pressedKeys s)[i := True],
             engineLog := engineLog s @ [triggerAttack (noteId (note (allKeys ! i)) (octave (allKeys ! i)))]\<rparr>"
  using assms by (simp add: deliver_def handleKeyDown_def playNote_def truthy_def propsOf_fields)

lemma fold_skip: "(\<And>j s. j \<in> set js \<Longrightarrow> f j s = s) \<Longrightarrow> fold f js s = s"
  by (induction js arbitrary: s) simp_all

lemma fold_single:
  assumes "distinct js" "i \<in> set js" "\<And>j s. j \<in> set js \<Longrightarrow> j \<noteq> i \<Longrightarrow> f j s = s"
  shows "fold f js s = f i s"
  using assms
proof (induction js arbitrary: s)
  case Nil
  then show ?case by simp
next
  case (Cons j js)
  show ?case
  proof (cases "j = i")
    case True
    with Cons.prems have "fold f js (f i s) = f i s"
      by (intro fold_skip) auto
    with True show ?thesis by simp
  next
    case False
    with Cons.prems have "f j s = s" "i \<in> set js" "distinct js"
      by auto
    with Cons.IH [of s] Cons.prems(3) show ?thesis by simp
  qed
qed

lemma bound_keys:
  "distinct (map keyBinding (take 24 allKeys))"
  "\<forall>k \<in> set (drop 24 allKeys). keyBinding k = None"
  "\<forall>k \<in> set allKeys. keyBinding k \<noteq> Some []"
  "length allKeys = 36"
  by (simp_all add: allKeys_eval)

lemma binding_below_24:
  assumes "i < length allKeys" "keyBinding (allKeys ! i) = Some b"
  shows "i < 24"
proof (rule ccontr)
  assume "\<not> i < 24"
  with assms(1) have "allKeys ! i = drop 24 allKeys ! (i - 24)" "i - 24 < length (drop 24 allKeys)"
    by simp_all
  then have "allKeys ! i \<in> set (drop 24 allKeys)"
    by (metis nth_mem)
  with bound_keys(2) have "keyBinding (allKeys ! i) = None"
    by blast
  with assms(2) show False by simp
qed

lemma binding_unique:
  assumes "i < length allKeys" "j < length allKeys"
    and "keyBinding (allKeys ! i) = Some b" "keyBinding (allKeys ! j) = Some b"
  shows "i = j"
proof -
  let ?bs = "map keyBinding (take 24 allKeys)"
  have i: "i < 24" and j: "j < 24"
    using assms binding_below_24 by blast+
  have len: "length ?bs = 24"
    by (simp add: bound_keys(4))
  have "?bs ! i = ?bs ! j"
    using assms(3,4) i j by (simp add: bound_keys(4))
  with nth_eq_iff_index_eq [OF bound_keys(1)] i j len show ?thesis
    by metis
qed

lemma binding_nonempty:
  assumes "i < length allKeys" "keyBinding (allKeys ! i) = Some b"
  shows "b \<noteq> []"
  using assms bound_keys(3) nth_mem by fastforce

lemma broadcast_keydown_hit:
  assumes "i < length (pressedKeys s)" "length (pressedKeys s) = length allKeys"
    and "keySampler s = Some smp" "keyBinding (allKeys ! i) = Some b"
  shows "broadcast (keydown \<lparr>key = b, repeat = False\<rparr>) s =
           s\<lparr>pressedKeys := (pressedKeys s)[i := True],
             engineLog := engineLog s @ [triggerAttack (noteId (note (allKeys ! i)) (octave (allKeys ! i)))]\<rparr>"
proof -
  let ?e = "\<lparr>key = b, repeat = False\<rparr>"
  have others: "deliver j (keydown ?e) t = t" if "j \<in> set [0..<length (pressedKeys s)]" "j \<noteq> i" for j t
  proof -
    from that assms have "keyBinding (allKeys ! j) \<noteq> Some b"
      using binding_unique [of j i b] by auto
    then show ?thesis by (simp add: deliver_keydown_miss)
  qed
  have "broadcast (keydown ?e) s = deliver i (keydown ?e) s"
    unfolding broadcast_def using assms(1) others by (intro fold_single) simp_all
  also have "\<dots> = s\<lparr>pressedKeys := (pressedKeys s)[i := True],
             engineLog := engineLog s @ [triggerAttack (noteId (note (allKeys ! i)) (octave (allKeys ! i)))]\<rparr>"
    using assms binding_nonempty [of i b] by (intro deliver_keydown_hit) simp_all
  finally show ?thesis .
qed

lemma broadcast_keydown_repeat:
  "broadcast (keydown \<lparr>key = b, repeat = True\<rparr>) s = s"
  unfolding broadcast_def by (intro fold_skip) (simp add: deliver_keydown_miss)

lemma loaded_eval:
  "run [ToneLoaded] =
     \<lparr>isLoading = False, samplerRef = Some newSampler, pendingLoad = None, disposed = [],
      keySampler = Some newSampler, pressedKeys = map (\<lambda>k. False) allKeys,
      scrollLeft = Some 0, wheelListener = False, engineLog = [], prevented = False\<rparr>"
  by (simp add: run_def mount_eval loaded_def render_def)

lemma keys_on_page:
  assumes "i < length (pressedKeys (run evs))"
  shows "length (pressedKeys (run evs)) = length allKeys" "\<exists>smp. keySampler (run evs) = Some smp"
  using assms run_invariant [of evs] by auto

text \<open>
  C7. In any state of the mounted surface with the keys on the page (the sampler is then
  present), a key-down of the physical key bound to a key that is not pressed makes that
  key pressed and adds exactly one call to those the sampler has received, the attack of
  that key's identifier: the listeners of all the other keys ignore the event. A
  key-down of the same physical key flagged as auto-repeat then adds no call and changes
  no key. For \<^verbatim>\<open>q\<close> the call is the attack of \<^verbatim>\<open>C4\<close>.
\<close>

theorem keydown_attacks_once:
  assumes "i < length (pressedKeys (run evs))"
    and "keyBinding (allKeys ! i) = Some b"
    and "\<not> pressedKeys (run evs) ! i"
  shows "(let s = run evs;
              s1 = Piano s (WindowKeyDown \<lparr>key = b, repeat = False\<rparr>);
              s2 = Piano s1 (WindowKeyDown \<lparr>key = b, repeat = True\<rparr>)
          in pressedKeys s1 = (pressedKeys s)[i := True]
             \<and> engineLog s1 = engineLog s
                   @ [triggerAttack (noteId (note (allKeys ! i)) (octave (allKeys ! i)))]
             \<and> pressedKeys s2 = pressedKeys s1 \<and> engineLog s2 = engineLog s1)"
proof -
  obtain smp where smp: "keySampler (run evs) = Some smp"
    using keys_on_page(2) [OF assms(1)] by blast
  have len: "length (pressedKeys (run evs)) = length allKeys"
    by (rule keys_on_page(1) [OF assms(1)])
  have "Piano (run evs) (WindowKeyDown \<lparr>key = b, repeat = False\<rparr>) =
          (run evs)\<lparr>prevented := False, pressedKeys := (pressedKeys (run evs))[i := True],
            engineLog := engineLog (run evs)
               @ [triggerAttack (noteId (note (allKeys ! i)) (octave (allKeys ! i)))]\<rparr>"
    using assms(1,2) len smp
    by (simp add: broadcast_keydown_hit [where i = i and smp = smp])
  then show ?thesis
    by (simp add: Let_def broadcast_keydown_repeat)
qed

theorem keydown_attacks_once_witness:
  "12 < length (pressedKeys (run [ToneLoaded]))
   \<and> keyBinding (allKeys ! 12) = Some ''q''
   \<and> \<not> pressedKeys (run [ToneLoaded]) ! 12
   \<and> pressedKeys (run [ToneLoaded, WindowKeyDown \<lparr>key = ''q'', repeat = False\<rparr>]) ! 12
   \<and> engineLog (run [ToneLoaded, WindowKeyDown \<lparr>key = ''q'', repeat = False\<rparr>])
        = [triggerAttack ''C4'']
   \<and> engineLog (run [ToneLoaded, WindowKeyDown \<lparr>key = ''q'', repeat = False\<rparr>,
                      WindowKeyDown \<lparr>key = ''q'', repeat = True\<rparr>])
        = [triggerAttack ''C4'']"
proof -
  have len: "length allKeys = 36"
    by (simp add: allKeys_eval)
  have on_page: "12 < length (pressedKeys (run [ToneLoaded]))"
    by (simp add: loaded_eval len)
  have bound: "keyBinding (allKeys ! 12) = Some ''q''"
    and ident: "noteId (note (allKeys ! 12)) (octave (allKeys ! 12)) = ''C4''"
    by (simp_all add: allKeys_eval noteId_octaves)
  have released: "\<not> pressedKeys (run [ToneLoaded]) ! 12"
    by (simp add: loaded_eval len)
  have steps: "run [ToneLoaded, e] = Piano (run [ToneLoaded]) e"
    "run [ToneLoaded, e, e'] = Piano (Piano (run [ToneLoaded]) e) e'" for e e'
    by (simp_all add: run_def)
  from keydown_attacks_once [OF on_page bound released] on_page bound released
  show ?thesis
    by (simp add: Let_def steps ident) (simp add: loaded_eval len)
qed

text \<open>
  C8. A mouse-down on a key of the page followed by a mouse-leave, with no mouse-up
  between them, adds the attack and then exactly one release of the key's identifier
  and leaves the key released; a mouse-leave on a key that is not pressed adds no call
  and changes no key.
\<close>

theorem down_then_leave_releases_once:
  assumes "i < length (pressedKeys (run evs))"
  shows "(let s = run evs;
              s1 = Piano s (Pointer i onMouseDown);
              s2 = Piano s1 (Pointer i onMouseLeave)
          in engineLog s2 = engineLog s
                 @ [triggerAttack (noteId (note (allKeys ! i)) (octave (allKeys ! i))),
                    triggerRelease (noteId (note (allKeys ! i)) (octave (allKeys ! i)))]
             \<and> pressedKeys s2 = (pressedKeys s)[i := False])
         \<and> (\<not> pressedKeys (run evs) ! i \<longrightarrow>
              (let s3 = Piano (run evs) (Pointer i onMouseLeave)
               in engineLog s3 = engineLog (run evs) \<and> pressedKeys s3 = pressedKeys (run evs)))"
proof -
  obtain smp where smp: "keySampler (run evs) = Some smp"
    using keys_on_page(2) [OF assms] by blast
  have len: "i < length allKeys"
    using keys_on_page(1) [OF assms] assms by simp
  let ?id = "noteId (note (allKeys ! i)) (octave (allKeys ! i))"
  have down: "Piano (run evs) (Pointer i onMouseDown) =
          (run evs)\<lparr>prevented := False, pressedKeys := (pressedKeys (run evs))[i := True],
            engineLog := engineLog (run evs) @ [triggerAttack ?id]\<rparr>"
    using assms len smp by (simp add: deliver_attack [where smp = smp])
  have leave: "Piano t (Pointer i onMouseLeave) =
          (if pressedKeys t ! i
           then t\<lparr>prevented := False, pressedKeys := (pressedKeys t)[i := False],
                  engineLog := engineLog t @ [triggerRelease ?id]\<rparr>
           else t\<lparr>prevented := False\<rparr>)"
    if "i < length (pressedKeys t)" "keySampler t = Some smp" for t
    using that len by (simp add: deliver_leave [where smp = smp])
  have "Piano (Piano (run evs) (Pointer i onMouseDown)) (Pointer i onMouseLeave) =
          (run evs)\<lparr>prevented := False, pressedKeys := (pressedKeys (run evs))[i := False],
            engineLog := engineLog (run evs) @ [triggerAttack ?id, triggerRelease ?id]\<rparr>"
  proof -
    let ?t = "(run evs)\<lparr>prevented := False, pressedKeys := (pressedKeys (run evs))[i := True],
                engineLog := engineLog (run evs) @ [triggerAttack ?id]\<rparr>"
    have "i < length (pressedKeys ?t)" "keySampler ?t = Some smp" "pressedKeys ?t ! i"
      using assms smp by simp_all
    then have after: "Piano ?t (Pointer i onMouseLeave) =
        ?t\<lparr>prevented := False, pressedKeys := (pressedKeys ?t)[i := False],
           engineLog := engineLog ?t @ [triggerRelease ?id]\<rparr>"
      by (simp only: leave if_True)
    have "Piano (Piano (run evs) (Pointer i onMouseDown)) (Pointer i onMouseLeave)
            = Piano ?t (Pointer i onMouseLeave)"
      by (simp only: down)
    also note after
    also have "?t\<lparr>prevented := False, pressedKeys := (pressedKeys ?t)[i := False],
           engineLog := engineLog ?t @ [triggerRelease ?id]\<rparr> =
          (run evs)\<lparr>prevented := False, pressedKeys := (pressedKeys (run evs))[i := False],
            engineLog := engineLog (run evs) @ [triggerAttack ?id, triggerRelease ?id]\<rparr>"
      by simp
    finally show ?thesis .
  qed
  moreover have "Piano (run evs) (Pointer i onMouseLeave) = (run evs)\<lparr>prevented := False\<rparr>"
    if "\<not> pressedKeys (run evs) ! i"
    using that assms smp by (subst leave) simp_all
  ultimately show ?thesis
    by (simp add: Let_def)
qed

theorem down_then_leave_releases_once_witness:
  "3 < length (pressedKeys (run [ToneLoaded]))
   \<and> engineLog (run [ToneLoaded, Pointer 3 onMouseDown, Pointer 3 onMouseLeave])
        = [triggerAttack ''D#3'', triggerRelease ''D#3'']
   \<and> \<not> pressedKeys (run [ToneLoaded]) ! 3
   \<and> engineLog (run [ToneLoaded, Pointer 3 onMouseLeave]) = []"
proof -
  have len: "length allKeys = 36"
    by (simp add: allKeys_eval)
  have on_page: "3 < length (pressedKeys (run [ToneLoaded]))"
    by (simp add: loaded_eval len)
  have ident: "noteId (note (allKeys ! 3)) (octave (allKeys ! 3)) = ''D#3''"
    by (simp add: allKeys_eval noteId_octaves)
  have released: "\<not> pressedKeys (run [ToneLoaded]) ! 3"
    by (simp add: loaded_eval len)
  have quiet: "engineLog (run [ToneLoaded]) = []"
    by (simp add: loaded_eval)
  have steps: "run [ToneLoaded, e] = Piano (run [ToneLoaded]) e"
    "run [ToneLoaded, e, e'] = Piano (Piano (run [ToneLoaded]) e) e'" for e e'
    by (simp_all add: run_def)
  from down_then_leave_releases_once [OF on_page] on_page released
  show ?thesis
    by (simp add: Let_def steps ident quiet)
qed

subsection \<open>The wheel listener\<close>

text \<open>
  Called on a wheel event, \<^verbatim>\<open>handleWheel\<close> does what the specification says of it: a
  vertical delta other than zero is added, as it is and whatever the delta mode, to the
  horizontal offset, and the default is prevented; a zero delta changes nothing. The
  effect that registers it runs once, after the first render, when the surface still
  shows the placeholder and \<^verbatim>\<open>scrollContainerRef.current\<close> is \<^verbatim>\<open>null\<close>: no state of
  the mounted surface has the listener attached.
\<close>

lemma handleWheel_remaps:
  "deltaY e \<noteq> 0 \<Longrightarrow> scrollLeft s = Some x \<Longrightarrow>
     handleWheel e s = s\<lparr>prevented := True, scrollLeft := Some (x + deltaY e)\<rparr>"
  "deltaY e = 0 \<Longrightarrow> handleWheel e s = s"
  by (simp_all add: handleWheel_def)

lemma wheel_never_handled:
  "Piano (run evs) (Wheel e) = (run evs)\<lparr>prevented := False\<rparr>"
  using run_invariant [of evs] by simp

text \<open>
  C9, at a concrete input. The surface is mounted and the samples have loaded, so the
  scroll container is on the page with offset 0. A wheel event with a vertical delta of
  40 leaves the offset at 0 and its default is not prevented, where the specification
  expects the offset 40 and the default prevented.
\<close>

theorem wheel_after_load_not_remapped:
  "\<not> isLoading (run [ToneLoaded])
   \<and> scrollLeft (run [ToneLoaded]) = Some 0
   \<and> scrollLeft (run [ToneLoaded, Wheel \<lparr>deltaX = 0, deltaY = 40, deltaMode = 0\<rparr>]) = Some 0
   \<and> \<not> prevented (run [ToneLoaded, Wheel \<lparr>deltaX = 0, deltaY = 40, deltaMode = 0\<rparr>])"
proof -
  have "run [ToneLoaded, e] = Piano (run [ToneLoaded]) e" for e
    by (simp add: run_def)
  then show ?thesis
    by (simp add: wheel_never_handled) (simp add: loaded_eval)
qed

end
